theory Spec2Isabelle
  imports Main "HOL-Library.Word"
begin

section \<open>Memory sharing: the \<open>memoryshare\<close> member of class \<open>spoutGL\<close>\<close>

text \<open>
  \<open>SpoutGL.h\<close> defines, inline, a struct with three fields and four member functions:
  \<^verbatim>\<open>
  struct {
    SpoutSharedMemory *senderMem;
    unsigned int m_Width;
    unsigned int m_Height;
    bool OpenSenderMemory(const char *sendername) ...
    void CloseSenderMemory() ...
    unsigned char * LockSenderMemory() ...
    void UnlockSenderMemory() ...
  } memoryshare;
  \<close>
  A pointer is an \<open>addr option\<close>: \<open>None\<close> is \<open>nullptr\<close>, \<open>Some a\<close> points to the object at
  address \<open>a\<close>. The two unsigned fields are 32-bit words.
\<close>

type_synonym addr = nat

record memoryshare =
  senderMem :: "addr option"
  m_Width :: "32 word"
  m_Height :: "32 word"

text \<open>
  Class \<open>SpoutSharedMemory\<close> is declared in a header that is not part of the sources at hand;
  the struct uses its constructor and its methods \<open>Open\<close>, \<open>Close\<close>, \<open>Lock\<close> and
  \<open>Unlock\<close>. They are taken as parameters: each is an arbitrary effect on a world \<open>'w\<close>
  (the objects on the heap, the named maps and mutexes of the operating system), applied to the
  object at a given address. \<open>Open\<close> returns a \<open>bool\<close>, \<open>Lock\<close> a \<open>char *\<close>, as the
  code uses them.
\<close>

record 'w SpoutSharedMemory =
  sm_new :: "'w \<Rightarrow> addr \<times> 'w"
  sm_Open :: "addr \<Rightarrow> string \<Rightarrow> 'w \<Rightarrow> bool \<times> 'w"
  sm_Close :: "addr \<Rightarrow> 'w \<Rightarrow> 'w"
  sm_Lock :: "addr \<Rightarrow> 'w \<Rightarrow> addr option \<times> 'w"
  sm_Unlock :: "addr \<Rightarrow> 'w \<Rightarrow> 'w"

text \<open>
  Every call that leaves the struct is logged, in order, so that a theorem can say which calls
  a member function issues and with which arguments.
\<close>

datatype call =
    New_call addr
  | Open_call addr string
  | Close_call addr
  | Lock_call addr
  | Unlock_call addr
  | LogWarning_call string

record 'w env =
  world :: 'w
  calls :: "call list"

definition call_new :: "'w SpoutSharedMemory \<Rightarrow> 'w env \<Rightarrow> addr \<times> 'w env" where
  "call_new sm e =
     (let (a, w) = sm_new sm (world e)
      in (a, \<lparr>world = w, calls = calls e @ [New_call a]\<rparr>))"

definition call_Open :: "'w SpoutSharedMemory \<Rightarrow> addr \<Rightarrow> string \<Rightarrow> 'w env \<Rightarrow> bool \<times> 'w env" where
  "call_Open sm a name e =
     (let (ok, w) = sm_Open sm a name (world e)
      in (ok, \<lparr>world = w, calls = calls e @ [Open_call a name]\<rparr>))"

definition call_Close :: "'w SpoutSharedMemory \<Rightarrow> addr \<Rightarrow> 'w env \<Rightarrow> 'w env" where
  "call_Close sm a e =
     \<lparr>world = sm_Close sm a (world e), calls = calls e @ [Close_call a]\<rparr>"

definition call_Lock :: "'w SpoutSharedMemory \<Rightarrow> addr \<Rightarrow> 'w env \<Rightarrow> addr option \<times> 'w env" where
  "call_Lock sm a e =
     (let (pBuf, w) = sm_Lock sm a (world e)
      in (pBuf, \<lparr>world = w, calls = calls e @ [Lock_call a]\<rparr>))"

definition call_Unlock :: "'w SpoutSharedMemory \<Rightarrow> addr \<Rightarrow> 'w env \<Rightarrow> 'w env" where
  "call_Unlock sm a e =
     \<lparr>world = sm_Unlock sm a (world e), calls = calls e @ [Unlock_call a]\<rparr>"

definition SpoutLogWarning :: "string \<Rightarrow> 'w env \<Rightarrow> 'w env" where
  "SpoutLogWarning msg e = e\<lparr>calls := calls e @ [LogWarning_call msg]\<rparr>"

text \<open>
  \<^verbatim>\<open>
  bool OpenSenderMemory(const char *sendername)
  {
    std::string namestring = sendername;
    namestring += "_map";
    if (!senderMem)
      senderMem = new SpoutSharedMemory();
    if (!senderMem->Open(namestring.c_str())) {
      SpoutLogWarning("spoutGL.memoryshare::OpenSenderMemory - open shared memory failed");
      return false;
    }
    return true;
  }
  \<close>
  The sender name is the character sequence of the C string (what precedes its terminator).
  A null \<open>sendername\<close>, for which the constructor of \<open>std::string\<close> is undefined, and an
  allocation that throws are outside the model: \<open>new\<close> returns the address of an object.
\<close>

definition OpenSenderMemory ::
  "'w SpoutSharedMemory \<Rightarrow> string \<Rightarrow> memoryshare \<times> 'w env \<Rightarrow> bool \<times> memoryshare \<times> 'w env" where
  "OpenSenderMemory sm sendername s =
     (let (m, e) = s;
          namestring = sendername @ ''_map'';
          (p, m1, e1) = (case senderMem m of
                           None \<Rightarrow> (let (a, e') = call_new sm e in (a, m\<lparr>senderMem := Some a\<rparr>, e'))
                         | Some a \<Rightarrow> (a, m, e));
          (ok, e2) = call_Open sm p namestring e1
      in if \<not> ok
         then (False, m1,
           SpoutLogWarning
             ''spoutGL.memoryshare::OpenSenderMemory - open shared memory failed'' e2)
         else (True, m1, e2))"

text \<open>
  \<^verbatim>\<open>
  void CloseSenderMemory()
  {
    if (senderMem) senderMem->Close();
    senderMem = nullptr;
    m_Width = 0;
    m_Height = 0;
  }
  \<close>
\<close>

definition CloseSenderMemory ::
  "'w SpoutSharedMemory \<Rightarrow> memoryshare \<times> 'w env \<Rightarrow> memoryshare \<times> 'w env" where
  "CloseSenderMemory sm s =
     (let (m, e) = s;
          e1 = (case senderMem m of Some a \<Rightarrow> call_Close sm a e | None \<Rightarrow> e)
      in (m\<lparr>senderMem := None, m_Width := 0, m_Height := 0\<rparr>, e1))"

text \<open>
  \<^verbatim>\<open>
  unsigned char * LockSenderMemory()
  {
    if (!senderMem) return nullptr;
    char *pBuf = senderMem->Lock();
    if (!pBuf) {
      // senderMem->Unlock();
      return nullptr;
    }
    return (unsigned char *)pBuf;
  }
  \<close>
\<close>

definition LockSenderMemory ::
  "'w SpoutSharedMemory \<Rightarrow> memoryshare \<times> 'w env \<Rightarrow> addr option \<times> memoryshare \<times> 'w env" where
  "LockSenderMemory sm s =
     (let (m, e) = s
      in case senderMem m of
           None \<Rightarrow> (None, m, e)
         | Some a \<Rightarrow>
             (let (pBuf, e1) = call_Lock sm a e
              in case pBuf of
                   None \<Rightarrow> (None, m, e1)
                 | Some b \<Rightarrow> (Some b, m, e1)))"

text \<open>
  \<^verbatim>\<open>
  void UnlockSenderMemory()
  {
    if (!senderMem) return;
    senderMem->Unlock();
  }
  \<close>
\<close>

definition UnlockSenderMemory ::
  "'w SpoutSharedMemory \<Rightarrow> memoryshare \<times> 'w env \<Rightarrow> memoryshare \<times> 'w env" where
  "UnlockSenderMemory sm s =
     (let (m, e) = s
      in case senderMem m of
           None \<Rightarrow> (m, e)
         | Some a \<Rightarrow> (m, call_Unlock sm a e))"

text \<open>The calls a member function has added to the log, and those among them that open a map or
  allocate an object.\<close>

definition issued :: "'w env \<Rightarrow> 'w env \<Rightarrow> call list" where
  "issued e e' = drop (length (calls e)) (calls e')"

fun is_Open_call :: "call \<Rightarrow> bool" where
  "is_Open_call (Open_call a name) = True"
| "is_Open_call c = False"

fun is_New_call :: "call \<Rightarrow> bool" where
  "is_New_call (New_call a) = True"
| "is_New_call c = False"

fun is_Unlock_call :: "call \<Rightarrow> bool" where
  "is_Unlock_call (Unlock_call a) = True"
| "is_Unlock_call c = False"

subsection \<open>A reference implementation of the shared memory class\<close>

text \<open>
  Modelled from the spec: class \<open>SpoutSharedMemory\<close> (its header and implementation are not
  among the sources). The specification describes the service as
  \<open>openNamed(name) -> MemoryHandle | Error{NotFound}\<close>,
  \<open>lockForRead/Write(MemoryHandle, timeoutMs) -> buffer view\<close> and \<open>close(MemoryHandle)\<close>,
  with \<open>Timeout\<close> the outcome of a lock that exceeded its bound. The world holds the names of
  the maps that exist, the map each object has open, the objects that hold the lock, and whether
  another process holds the mutex (a lock then times out). It is used to run the member functions
  on concrete states; the theorems about the member functions hold for every implementation.
\<close>

record shm_world =
  next_addr :: addr
  named_maps :: "string list"
  open_maps :: "(addr \<times> string) list"
  locked :: "addr list"
  mutex_busy :: bool

definition is_open :: "addr \<Rightarrow> shm_world \<Rightarrow> bool" where
  "is_open a w = (map_of (open_maps w) a \<noteq> None)"

text \<open>Modelled from the spec: the constructor, which takes the next free address.\<close>

definition ref_new :: "shm_world \<Rightarrow> addr \<times> shm_world" where
  "ref_new w = (next_addr w, w\<lparr>next_addr := Suc (next_addr w)\<rparr>)"

text \<open>Modelled from the spec: \<open>close(MemoryHandle)\<close>; the object gives up its map and the
  lock.\<close>

definition ref_Close :: "addr \<Rightarrow> shm_world \<Rightarrow> shm_world" where
  "ref_Close a w =
     w\<lparr>open_maps := filter (\<lambda>(b, n). b \<noteq> a) (open_maps w),
       locked := removeAll a (locked w)\<rparr>"

text \<open>Modelled from the spec: \<open>openNamed(name) -> MemoryHandle | Error{NotFound}\<close>; when the
  named map exists the object holds it from then on, in place of a map it held before; when it
  does not exist the call fails and changes nothing.\<close>

definition ref_Open :: "addr \<Rightarrow> string \<Rightarrow> shm_world \<Rightarrow> bool \<times> shm_world" where
  "ref_Open a name w =
     (if name \<in> set (named_maps w)
      then (True, (ref_Close a w)\<lparr>open_maps := (a, name) # open_maps (ref_Close a w)\<rparr>)
      else (False, w))"

text \<open>Modelled from the spec: \<open>lockForRead/Write(MemoryHandle, timeoutMs) -> buffer view\<close>;
  the result is the buffer of the map, or \<open>nullptr\<close> when the object has no map open or when
  the mutex is held elsewhere and the wait runs into its bound.\<close>

definition buffer_of :: "addr \<Rightarrow> addr" where
  "buffer_of a = 4096 * Suc a"

definition ref_Lock :: "addr \<Rightarrow> shm_world \<Rightarrow> addr option \<times> shm_world" where
  "ref_Lock a w =
     (if \<not> is_open a w then (None, w)
      else if mutex_busy w \<or> locked w \<noteq> [] then (None, w)
      else (Some (buffer_of a), w\<lparr>locked := [a]\<rparr>))"

text \<open>Modelled from the spec: the release of the lock.\<close>

definition ref_Unlock :: "addr \<Rightarrow> shm_world \<Rightarrow> shm_world" where
  "ref_Unlock a w = w\<lparr>locked := removeAll a (locked w)\<rparr>"

definition ref_shm :: "shm_world SpoutSharedMemory" where
  "ref_shm = \<lparr>sm_new = ref_new, sm_Open = ref_Open, sm_Close = ref_Close,
              sm_Lock = ref_Lock, sm_Unlock = ref_Unlock\<rparr>"

text \<open>A machine on which a sender has published the map \<open>cam0_map\<close>, and a struct on which
  nothing has been opened.\<close>

definition world0 :: shm_world where
  "world0 = \<lparr>next_addr = 1, named_maps = [''cam0_map''], open_maps = [], locked = [],
             mutex_busy = False\<rparr>"

definition env0 :: "shm_world env" where
  "env0 = \<lparr>world = world0, calls = []\<rparr>"

definition never_opened :: memoryshare where
  "never_opened = \<lparr>senderMem = None, m_Width = 0, m_Height = 0\<rparr>"

text \<open>A machine with a map under the bare sender name \<open>cam0\<close> next to the map \<open>cam0_map\<close>, and
  one with the map under the bare name only.\<close>

definition env_both :: "shm_world env" where
  "env_both = \<lparr>world = world0\<lparr>named_maps := [''cam0'', ''cam0_map'']\<rparr>, calls = []\<rparr>"

definition env_bare :: "shm_world env" where
  "env_bare = \<lparr>world = world0\<lparr>named_maps := [''cam0'']\<rparr>, calls = []\<rparr>"

text \<open>The struct after it has opened the map of sender \<open>cam0\<close>, and the same while another
  process holds the mutex of the map.\<close>

definition opened_state :: "memoryshare \<times> shm_world env" where
  "opened_state = snd (OpenSenderMemory ref_shm ''cam0'' (never_opened, env0))"

definition busy_state :: "memoryshare \<times> shm_world env" where
  "busy_state =
     (fst opened_state, (snd opened_state)\<lparr>world := (world (snd opened_state))\<lparr>mutex_busy := True\<rparr>\<rparr>)"

section \<open>Texture copy and stride correction\<close>

text \<open>
  \<open>SpoutGL.h\<close> declares
  \<^verbatim>\<open>
  // Copy OpenGL texture with optional invert
  //   Textures must be the same size
  bool CopyTexture(GLuint SourceID, GLuint SourceTarget, GLuint DestID, GLuint DestTarget,
    unsigned int width, unsigned int height, bool bInvert = false, GLuint HostFBO = 0);
  // Correct for image stride
  void RemovePadding(const unsigned char *source, unsigned char *dest,
    unsigned int width, unsigned int height, unsigned int stride, GLenum glFormat = GL_RGBA);
  \<close>
  and their bodies are in a file that is not among the sources. A buffer is the list of its
  elements in memory order; row \<open>y\<close> of a buffer with \<open>pitch\<close> elements from one row to the next
  starts at element \<open>y * pitch\<close>.
\<close>

definition row_of :: "'a list \<Rightarrow> nat \<Rightarrow> nat \<Rightarrow> nat \<Rightarrow> 'a list" where
  "row_of buf pitch n y = take n (drop (y * pitch) buf)"

type_synonym GLuint = "32 word"
type_synonym pixel = "32 word"
type_synonym byte = "8 word"

text \<open>Modelled from the spec: an OpenGL texture ("texture-like: width, height, pixel format"),
  as its size and its pixels, \<open>tex_width\<close> to a row, without padding. It is well formed when it
  holds \<open>tex_height\<close> rows.\<close>

record texture =
  tex_width :: nat
  tex_height :: nat
  tex_pixels :: "pixel list"

definition valid_texture :: "texture \<Rightarrow> bool" where
  "valid_texture t = (length (tex_pixels t) = tex_height t * tex_width t)"

text \<open>
  Modelled from the spec: the row loop of a copy (the body of \<open>CopyTexture\<close> is not among the
  sources). By the specification, "\<open>invert\<close> flips rows during the copy rather than as a separate
  pass": destination row \<open>y\<close> is source row \<open>height - 1 - y\<close> when \<open>bInvert\<close> is set, and source
  row \<open>y\<close> otherwise.
\<close>

definition copy_rows :: "'a list \<Rightarrow> nat \<Rightarrow> nat \<Rightarrow> bool \<Rightarrow> 'a list" where
  "copy_rows src width height bInvert =
     concat (map (\<lambda>y. row_of src width width (if bInvert then height - 1 - y else y))
       [0..<height])"

text \<open>
  Modelled from the spec: \<open>CopyTexture\<close> (declared in \<open>SpoutGL.h\<close>, its body is not among the
  sources). By the specification a transfer validates width and height, "textures must be
  identical width/height between source and destination for a given call", there is "no
  implicit scaling", and a mismatch is the error \<open>SizeMismatch\<close>; the declaration returns a
  \<open>bool\<close>. The texture targets and the host frame buffer object, which select how OpenGL binds
  the textures, are left out.
\<close>

definition CopyTexture ::
  "(GLuint \<rightharpoonup> texture) \<Rightarrow> GLuint \<Rightarrow> GLuint \<Rightarrow> nat \<Rightarrow> nat \<Rightarrow> bool \<Rightarrow> bool \<times> (GLuint \<rightharpoonup> texture)" where
  "CopyTexture gl SourceID DestID width height bInvert =
     (case gl SourceID of
        None \<Rightarrow> (False, gl)
      | Some src \<Rightarrow>
          (case gl DestID of
             None \<Rightarrow> (False, gl)
           | Some dst \<Rightarrow>
               if tex_width src = width \<and> tex_height src = height \<and>
                  tex_width dst = width \<and> tex_height dst = height
               then (True,
                 gl(DestID \<mapsto> dst\<lparr>tex_pixels := copy_rows (tex_pixels src) width height bInvert\<rparr>))
               else (False, gl)))"

text \<open>
  Modelled from the spec: the pixel formats of \<open>GLenum glFormat\<close> and their "bytesPerPixel"
  (the OpenGL headers are not among the sources): four bytes for the formats with an alpha
  channel, three for those without.
\<close>

datatype GLformat = GL_RGBA | GL_BGRA_EXT | GL_RGB | GL_BGR_EXT

fun bytesPerPixel :: "GLformat \<Rightarrow> nat" where
  "bytesPerPixel GL_RGBA = 4"
| "bytesPerPixel GL_BGRA_EXT = 4"
| "bytesPerPixel GL_RGB = 3"
| "bytesPerPixel GL_BGR_EXT = 3"

text \<open>
  Modelled from the spec: \<open>RemovePadding\<close> (declared in \<open>SpoutGL.h\<close>, its body is not among the
  sources), the "row stride correction (padding removal)" of a transfer: of each of the
  \<open>height\<close> source rows, \<open>stride\<close> bytes apart, the first \<open>width * bytesPerPixel\<close> bytes go to
  the destination, one row after the other. The result is what is written to \<open>dest\<close>.
\<close>

definition RemovePadding :: "byte list \<Rightarrow> nat \<Rightarrow> nat \<Rightarrow> nat \<Rightarrow> GLformat \<Rightarrow> byte list" where
  "RemovePadding source width height stride glFormat =
     concat (map (row_of source stride (width * bytesPerPixel glFormat)) [0..<height])"

text \<open>
  Modelled from the spec: step 3 of a transfer, "Row stride correction (padding removal) is
  applied whenever the source row pitch exceeds \<open>width * bytesPerPixel\<close>"; otherwise the
  \<open>height * width * bytesPerPixel\<close> bytes of the frame are copied as they are.
\<close>

definition copy_pixels :: "byte list \<Rightarrow> nat \<Rightarrow> nat \<Rightarrow> nat \<Rightarrow> GLformat \<Rightarrow> byte list" where
  "copy_pixels source width height pitch glFormat =
     (if width * bytesPerPixel glFormat < pitch
      then RemovePadding source width height pitch glFormat
      else take (height * (width * bytesPerPixel glFormat)) source)"

text \<open>Two textures of three rows and two columns, for running the copy.\<close>

definition tex_a :: texture where
  "tex_a = \<lparr>tex_width = 2, tex_height = 3, tex_pixels = [1, 2, 3, 4, 5, 6]\<rparr>"

definition tex_b :: texture where
  "tex_b = \<lparr>tex_width = 2, tex_height = 3, tex_pixels = [0, 0, 0, 0, 0, 0]\<rparr>"

definition gl0 :: "GLuint \<rightharpoonup> texture" where
  "gl0 = [1 \<mapsto> tex_a, 2 \<mapsto> tex_b]"

section \<open>Properties of the memory sharing struct\<close>

subsection \<open>Closing\<close>

text \<open>
  C4. Closing is idempotent. \<open>CloseSenderMemory\<close> may be called on a struct that was closed
  before or on which nothing was ever opened: a second call changes nothing, neither in the
  struct nor in the world, and issues no call; any number of calls, one or more, leaves the
  state of a single call; after a call \<open>senderMem\<close> is \<open>nullptr\<close> and \<open>m_Width\<close> and
  \<open>m_Height\<close> are 0; on a struct whose \<open>senderMem\<close> is \<open>nullptr\<close> the call touches nothing
  but the two sizes.
\<close>

theorem CloseSenderMemory_idempotent:
  "CloseSenderMemory sm (CloseSenderMemory sm s) = CloseSenderMemory sm s \<and>
   (CloseSenderMemory sm ^^ Suc n) s = CloseSenderMemory sm s \<and>
   fst (CloseSenderMemory sm s) = \<lparr>senderMem = None, m_Width = 0, m_Height = 0\<rparr> \<and>
   CloseSenderMemory sm (\<lparr>senderMem = None, m_Width = w, m_Height = h\<rparr>, e) =
     (\<lparr>senderMem = None, m_Width = 0, m_Height = 0\<rparr>, e)"
proof -
  have twice: "CloseSenderMemory sm (CloseSenderMemory sm t) = CloseSenderMemory sm t" for t
    by (cases t) (simp add: CloseSenderMemory_def split: option.splits)
  have "(CloseSenderMemory sm ^^ Suc n) s = CloseSenderMemory sm s"
    by (induction n) (simp_all add: twice)
  moreover have "fst (CloseSenderMemory sm s) = \<lparr>senderMem = None, m_Width = 0, m_Height = 0\<rparr>"
    by (cases s) (simp add: CloseSenderMemory_def)
  moreover have "CloseSenderMemory sm (\<lparr>senderMem = None, m_Width = w, m_Height = h\<rparr>, e) =
      (\<lparr>senderMem = None, m_Width = 0, m_Height = 0\<rparr>, e)"
    by (simp add: CloseSenderMemory_def)
  ultimately show ?thesis using twice by blast
qed

subsection \<open>The reference implementation on concrete states\<close>

lemmas ref_defs = ref_shm_def ref_new_def ref_Open_def ref_Close_def ref_Lock_def ref_Unlock_def
  is_open_def buffer_of_def world0_def env0_def never_opened_def
lemmas call_defs = call_new_def call_Open_def call_Close_def call_Lock_def call_Unlock_def
  SpoutLogWarning_def

lemma opened_state_eq:
  "opened_state = (\<lparr>senderMem = Some 1, m_Width = 0, m_Height = 0\<rparr>,
     \<lparr>world = \<lparr>next_addr = 2, named_maps = [''cam0_map''], open_maps = [(1, ''cam0_map'')],
                locked = [], mutex_busy = False\<rparr>,
      calls = [New_call 1, Open_call 1 ''cam0_map'']\<rparr>)"
  by (simp add: opened_state_def OpenSenderMemory_def Let_def call_defs ref_defs)

lemma busy_state_eq:
  "busy_state = (\<lparr>senderMem = Some 1, m_Width = 0, m_Height = 0\<rparr>,
     \<lparr>world = \<lparr>next_addr = 2, named_maps = [''cam0_map''], open_maps = [(1, ''cam0_map'')],
                locked = [], mutex_busy = True\<rparr>,
      calls = [New_call 1, Open_call 1 ''cam0_map'']\<rparr>)"
  by (simp add: busy_state_def opened_state_eq)

lemma OpenSenderMemory_present:
  "OpenSenderMemory ref_shm ''cam0'' (never_opened, env0) = (True, opened_state)"
  by (simp add: opened_state_def OpenSenderMemory_def Let_def call_defs ref_defs)


subsection \<open>Opening\<close>




text \<open>
  C9. The name of the map. \<open>OpenSenderMemory\<close> opens the map whose name is the sender name
  followed by \<open>_map\<close>: it returns the result of \<open>Open\<close> with that name on the object
  \<open>senderMem\<close> points to afterwards, the world it leaves is the world that \<open>Open\<close> leaves,
  that \<open>Open\<close> is the only one it issues, and the calls logged before are kept. No map is
  opened under the bare sender name or any other name.
\<close>

theorem OpenSenderMemory_map_name:
  "\<exists>p w. (senderMem m = Some p \<and> w = world e \<or>
           senderMem m = None \<and> sm_new sm (world e) = (p, w)) \<and>
     senderMem (fst (snd (OpenSenderMemory sm name (m, e)))) = Some p \<and>
     fst (OpenSenderMemory sm name (m, e)) = fst (sm_Open sm p (name @ ''_map'') w) \<and>
     world (snd (snd (OpenSenderMemory sm name (m, e)))) =
       snd (sm_Open sm p (name @ ''_map'') w) \<and>
     filter is_Open_call (issued e (snd (snd (OpenSenderMemory sm name (m, e))))) =
       [Open_call p (name @ ''_map'')] \<and>
     take (length (calls e)) (calls (snd (snd (OpenSenderMemory sm name (m, e))))) = calls e"
proof (cases "senderMem m")
  case None
  obtain p w where new: "sm_new sm (world e) = (p, w)" by (cases "sm_new sm (world e)")
  obtain ok w' where op: "sm_Open sm p (name @ ''_map'') w = (ok, w')"
    by (cases "sm_Open sm p (name @ ''_map'') w")
  show ?thesis using None new op
    by (intro exI [of _ p] exI [of _ w])
      (simp add: OpenSenderMemory_def Let_def call_defs issued_def)
next
  case (Some p)
  obtain ok w' where op: "sm_Open sm p (name @ ''_map'') (world e) = (ok, w')"
    by (cases "sm_Open sm p (name @ ''_map'') (world e)")
  show ?thesis using Some op
    by (intro exI [of _ p] exI [of _ "world e"])
      (simp add: OpenSenderMemory_def Let_def call_defs issued_def)
qed

theorem OpenSenderMemory_map_name_witness:
  "fst (OpenSenderMemory ref_shm ''cam0'' (never_opened, env_both)) = True \<and>
   open_maps (world (snd (snd (OpenSenderMemory ref_shm ''cam0'' (never_opened, env_both))))) =
     [(1, ''cam0_map'')] \<and>
   fst (OpenSenderMemory ref_shm ''cam0'' (never_opened, env_bare)) = False \<and>
   open_maps (world (snd (snd (OpenSenderMemory ref_shm ''cam0'' (never_opened, env_bare))))) = []"
proof -
  have new: "sm_new ref_shm (world env_both) = (1, (world env_both)\<lparr>next_addr := 2\<rparr>)"
    "sm_new ref_shm (world env_bare) = (1, (world env_bare)\<lparr>next_addr := 2\<rparr>)"
    by (simp_all add: ref_shm_def ref_new_def env_both_def env_bare_def world0_def)
  have both: "sm_Open ref_shm 1 ''cam0_map'' ((world env_both)\<lparr>next_addr := 2\<rparr>) =
      (True, (world env_both)\<lparr>next_addr := 2, open_maps := [(1, ''cam0_map'')]\<rparr>)"
    by (simp add: ref_shm_def ref_Open_def ref_Close_def env_both_def world0_def)
  have bare: "sm_Open ref_shm 1 ''cam0_map'' ((world env_bare)\<lparr>next_addr := 2\<rparr>) =
      (False, (world env_bare)\<lparr>next_addr := 2\<rparr>)"
    by (simp add: ref_shm_def ref_Open_def env_bare_def world0_def)
  have null: "senderMem never_opened = None"
    by (simp add: never_opened_def)
  from OpenSenderMemory_map_name
    [where m = never_opened and sm = ref_shm and e = env_both and name = "''cam0''"] null new both
  have "fst (OpenSenderMemory ref_shm ''cam0'' (never_opened, env_both)) = True \<and>
      open_maps (world (snd (snd (OpenSenderMemory ref_shm ''cam0'' (never_opened, env_both))))) =
        [(1, ''cam0_map'')]"
    by auto
  moreover
  from OpenSenderMemory_map_name
    [where m = never_opened and sm = ref_shm and e = env_bare and name = "''cam0''"] null new bare
  have "fst (OpenSenderMemory ref_shm ''cam0'' (never_opened, env_bare)) = False \<and>
      open_maps (world (snd (snd (OpenSenderMemory ref_shm ''cam0'' (never_opened, env_bare))))) = []"
    by (auto simp: env_bare_def world0_def)
  ultimately show ?thesis by simp
qed

text \<open>
  C10. Reuse of the shared memory object. When \<open>senderMem\<close> is not \<open>nullptr\<close>,
  \<open>OpenSenderMemory\<close> allocates nothing and leaves the struct as it was, \<open>senderMem\<close> included;
  when \<open>senderMem\<close> is \<open>nullptr\<close> it allocates exactly one object and stores its address in
  \<open>senderMem\<close>. On both paths \<open>m_Width\<close> and \<open>m_Height\<close> keep their values.
\<close>

theorem OpenSenderMemory_reuse:
  assumes run: "OpenSenderMemory sm name (m, e) = (r, m', e')"
  shows "(\<forall>a. senderMem m = Some a \<longrightarrow>
            m' = m \<and> senderMem m' = Some a \<and> filter is_New_call (issued e e') = []) \<and>
         (senderMem m = None \<longrightarrow>
            (\<exists>a. filter is_New_call (issued e e') = [New_call a] \<and> senderMem m' = Some a \<and>
               a = fst (sm_new sm (world e)))) \<and>
         m_Width m' = m_Width m \<and> m_Height m' = m_Height m"
  using run
  by (auto simp: OpenSenderMemory_def Let_def call_defs issued_def
      split: option.splits prod.splits if_splits)

theorem OpenSenderMemory_reuse_witness:
  "snd (OpenSenderMemory ref_shm ''cam0'' (never_opened, env0)) = opened_state \<and>
   senderMem never_opened = None \<and> senderMem (fst opened_state) = Some 1 \<and>
   filter is_New_call (issued env0 (snd opened_state)) = [New_call 1] \<and>
   fst (snd (OpenSenderMemory ref_shm ''cam1'' opened_state)) = fst opened_state \<and>
   filter is_New_call
     (issued (snd opened_state) (snd (snd (OpenSenderMemory ref_shm ''cam1'' opened_state)))) = []"
proof -
  have again: "OpenSenderMemory ref_shm ''cam1'' (fst opened_state, snd opened_state) =
      (fst (OpenSenderMemory ref_shm ''cam1'' opened_state),
       fst (snd (OpenSenderMemory ref_shm ''cam1'' opened_state)),
       snd (snd (OpenSenderMemory ref_shm ''cam1'' opened_state)))"
    by simp
  have first: "OpenSenderMemory ref_shm ''cam0'' (never_opened, env0) =
      (True, fst opened_state, snd opened_state)"
    by (simp add: OpenSenderMemory_present)
  have "senderMem never_opened = None" "senderMem (fst opened_state) = Some 1"
    by (simp_all add: never_opened_def opened_state_eq)
  with OpenSenderMemory_reuse [OF first] OpenSenderMemory_reuse [OF again]
  show ?thesis
    by (auto simp: OpenSenderMemory_present)
qed

subsection \<open>Locking\<close>

text \<open>
  C6 does not hold as stated: the lock operation has no timeout argument, and a lock that
  timed out gives the outcome of a struct on which nothing was opened. In \<open>busy_state\<close> the map
  is open and another process holds the mutex, so that the lock of the reference implementation
  times out; \<open>LockSenderMemory\<close> returns \<open>nullptr\<close>, which is also what it returns when
  \<open>senderMem\<close> is \<open>nullptr\<close>.
\<close>

theorem LockSenderMemory_timeout_counterexample:
  "fst (LockSenderMemory ref_shm busy_state) = fst (LockSenderMemory ref_shm (never_opened, env0)) \<and>
   fst (LockSenderMemory ref_shm busy_state) = None \<and>
   senderMem (fst busy_state) = Some 1 \<and> is_open 1 (world (snd busy_state)) \<and>
   mutex_busy (world (snd busy_state)) \<and>
   senderMem never_opened = None \<and>
   fst (LockSenderMemory ref_shm opened_state) = Some (buffer_of 1)"
  by (simp add: busy_state_eq opened_state_eq LockSenderMemory_def call_defs ref_defs)

text \<open>
  C6, amended. \<open>LockSenderMemory\<close> takes no timeout and has two kinds of outcome only. It
  returns \<open>nullptr\<close> exactly when \<open>senderMem\<close> is \<open>nullptr\<close> or \<open>Lock\<close> of the shared memory
  object returned \<open>nullptr\<close>, whatever the reason; it returns a buffer exactly when \<open>senderMem\<close>
  is not \<open>nullptr\<close> and \<open>Lock\<close> returned that buffer.
\<close>

theorem LockSenderMemory_outcomes:
  "(fst (LockSenderMemory sm (m, e)) = None) =
     (senderMem m = None \<or> (\<exists>a. senderMem m = Some a \<and> fst (sm_Lock sm a (world e)) = None)) \<and>
   (fst (LockSenderMemory sm (m, e)) = Some b) =
     (\<exists>a. senderMem m = Some a \<and> fst (sm_Lock sm a (world e)) = Some b)"
  by (auto simp: LockSenderMemory_def call_Lock_def split: option.splits prod.splits)

text \<open>
  C7. No size checks. \<open>LockSenderMemory\<close> does not look at \<open>m_Width\<close> and \<open>m_Height\<close>: with any
  other two values in these fields it returns the same pointer and has the same effect. It does
  not change the struct, and neither does \<open>UnlockSenderMemory\<close>: the sizes that accompany the
  buffer are left for the caller to check, and are never adjusted.
\<close>

theorem LockSenderMemory_no_size_checks:
  "LockSenderMemory sm (m\<lparr>m_Width := w, m_Height := h\<rparr>, e) =
     (case LockSenderMemory sm (m, e) of
        (pBuf, m', e') \<Rightarrow> (pBuf, m'\<lparr>m_Width := w, m_Height := h\<rparr>, e')) \<and>
   fst (snd (LockSenderMemory sm (m, e))) = m \<and>
   fst (UnlockSenderMemory sm (m, e)) = m"
  by (auto simp: LockSenderMemory_def UnlockSenderMemory_def call_Lock_def
      split: option.splits prod.splits)

text \<open>
  C8 does not hold as stated: \<open>UnlockSenderMemory\<close> is not a no-op in every state in which
  \<open>Lock\<close> returns \<open>nullptr\<close>. In \<open>busy_state\<close> the map is open, \<open>senderMem\<close> is not
  \<open>nullptr\<close> and \<open>LockSenderMemory\<close> returns \<open>nullptr\<close>; \<open>UnlockSenderMemory\<close>, before or
  after that failed lock, calls \<open>Unlock\<close> on the shared memory object.
\<close>

theorem UnlockSenderMemory_noop_counterexample:
  "senderMem (fst busy_state) = Some 1 \<and>
   fst (sm_Lock ref_shm 1 (world (snd busy_state))) = None \<and>
   fst (LockSenderMemory ref_shm busy_state) = None \<and>
   UnlockSenderMemory ref_shm busy_state \<noteq> busy_state \<and>
   calls (snd (UnlockSenderMemory ref_shm busy_state)) =
     [New_call 1, Open_call 1 ''cam0_map'', Unlock_call 1] \<and>
   calls (snd (UnlockSenderMemory ref_shm (snd (LockSenderMemory ref_shm busy_state)))) =
     [New_call 1, Open_call 1 ''cam0_map'', Lock_call 1, Unlock_call 1]"
  by (simp add: busy_state_eq LockSenderMemory_def UnlockSenderMemory_def call_defs ref_defs)

text \<open>
  C8, amended. Null safety. When \<open>senderMem\<close> is \<open>nullptr\<close>, \<open>LockSenderMemory\<close> returns
  \<open>nullptr\<close> and \<open>UnlockSenderMemory\<close> returns, both without a call on any object and without a
  change of state. When \<open>Lock\<close> of the shared memory object returns \<open>nullptr\<close>,
  \<open>LockSenderMemory\<close> returns \<open>nullptr\<close> and the one call it has issued is that \<open>Lock\<close>: there
  is no \<open>Unlock\<close>. \<open>LockSenderMemory\<close> returns a buffer only when \<open>senderMem\<close> is not \<open>nullptr\<close>
  and \<open>Lock\<close> returned that buffer. \<open>UnlockSenderMemory\<close> is a no-op only when \<open>senderMem\<close> is
  \<open>nullptr\<close>: whenever \<open>senderMem\<close> is not \<open>nullptr\<close> it calls \<open>Unlock\<close> on the object once,
  whatever an earlier \<open>Lock\<close> returned, and leaves the struct as it was.
\<close>

theorem LockSenderMemory_null_safe:
  "(senderMem m = None \<longrightarrow>
      LockSenderMemory sm (m, e) = (None, m, e) \<and> UnlockSenderMemory sm (m, e) = (m, e)) \<and>
   (\<forall>a. senderMem m = Some a \<and> fst (sm_Lock sm a (world e)) = None \<longrightarrow>
      fst (LockSenderMemory sm (m, e)) = None \<and>
      fst (snd (LockSenderMemory sm (m, e))) = m \<and>
      world (snd (snd (LockSenderMemory sm (m, e)))) = snd (sm_Lock sm a (world e)) \<and>
      calls (snd (snd (LockSenderMemory sm (m, e)))) = calls e @ [Lock_call a] \<and>
      filter is_Unlock_call (issued e (snd (snd (LockSenderMemory sm (m, e))))) = []) \<and>
   (\<forall>b. fst (LockSenderMemory sm (m, e)) = Some b \<longrightarrow>
      (\<exists>a. senderMem m = Some a \<and> fst (sm_Lock sm a (world e)) = Some b)) \<and>
   (\<forall>a. senderMem m = Some a \<longrightarrow>
      UnlockSenderMemory sm (m, e) =
        (m, \<lparr>world = sm_Unlock sm a (world e), calls = calls e @ [Unlock_call a]\<rparr>))"
  by (auto simp: LockSenderMemory_def UnlockSenderMemory_def call_Lock_def call_Unlock_def
      issued_def split: option.splits prod.splits)

theorem LockSenderMemory_null_safe_witness:
  "LockSenderMemory ref_shm (never_opened, env0) = (None, never_opened, env0) \<and>
   UnlockSenderMemory ref_shm (never_opened, env0) = (never_opened, env0) \<and>
   fst (LockSenderMemory ref_shm busy_state) = None \<and>
   calls (snd (snd (LockSenderMemory ref_shm busy_state))) =
     [New_call 1, Open_call 1 ''cam0_map'', Lock_call 1] \<and>
   fst (LockSenderMemory ref_shm opened_state) = Some (buffer_of 1) \<and>
   senderMem (fst opened_state) = Some 1 \<and>
   UnlockSenderMemory ref_shm busy_state =
     (fst busy_state,
      \<lparr>world = ref_Unlock 1 (world (snd busy_state)),
       calls = [New_call 1, Open_call 1 ''cam0_map'', Unlock_call 1]\<rparr>)"
proof -
  have null: "senderMem never_opened = None"
    by (simp add: never_opened_def)
  have busy: "senderMem (fst busy_state) = Some 1 \<and>
      fst (sm_Lock ref_shm 1 (world (snd busy_state))) = None"
    by (simp add: busy_state_eq ref_defs)
  have ok: "fst (LockSenderMemory ref_shm (fst opened_state, snd opened_state)) = Some (buffer_of 1)"
    by (simp add: opened_state_eq LockSenderMemory_def call_defs ref_defs)
  have sel: "sm_Unlock ref_shm = ref_Unlock"
    by (simp add: ref_shm_def)
  from LockSenderMemory_null_safe [of never_opened ref_shm env0] null
  have "LockSenderMemory ref_shm (never_opened, env0) = (None, never_opened, env0) \<and>
      UnlockSenderMemory ref_shm (never_opened, env0) = (never_opened, env0)"
    by simp
  moreover from LockSenderMemory_null_safe [of "fst busy_state" ref_shm "snd busy_state"] busy
  have "fst (LockSenderMemory ref_shm busy_state) = None \<and>
      calls (snd (snd (LockSenderMemory ref_shm busy_state))) = calls (snd busy_state) @ [Lock_call 1] \<and>
      UnlockSenderMemory ref_shm busy_state =
        (fst busy_state,
         \<lparr>world = ref_Unlock 1 (world (snd busy_state)),
          calls = calls (snd busy_state) @ [Unlock_call 1]\<rparr>)"
    by (simp add: sel)
  moreover from LockSenderMemory_null_safe [of "fst opened_state" ref_shm "snd opened_state"] ok
  have "senderMem (fst opened_state) = Some 1"
    by (auto simp: opened_state_eq)
  ultimately show ?thesis using ok
    by (simp add: busy_state_eq)
qed

section \<open>Properties of the texture copy\<close>

subsection \<open>Rows of a buffer\<close>

lemma row_concat:
  "\<forall>r\<in>set rs. length r = w \<Longrightarrow> y < length rs \<Longrightarrow> take w (drop (y * w) (concat rs)) = rs ! y"
proof (induction rs arbitrary: y)
  case Nil
  then show ?case by simp
next
  case (Cons r rs)
  show ?case
  proof (cases y)
    case 0
    with Cons.prems show ?thesis by simp
  next
    case (Suc k)
    with Cons show ?thesis by simp
  qed
qed

lemma concat_rows:
  "length src = h * w \<Longrightarrow> concat (map (\<lambda>y. take w (drop (y * w) src)) [0..<h]) = src"
proof (induction h arbitrary: src rule: nat.induct)
  case zero
  then show ?case by simp
next
  case (Suc h)
  have "concat (map (\<lambda>y. take w (drop (y * w) src)) [0..<h]) = take (h * w) src"
  proof -
    have "concat (map (\<lambda>y. take w (drop (y * w) (take (h * w) src))) [0..<h]) = take (h * w) src"
      using Suc.prems by (intro Suc.IH) simp
    moreover have "\<And>y. y < h \<Longrightarrow> take w (drop (y * w) (take (h * w) src)) = take w (drop (y * w) src)"
    proof -
      fix y assume "y < h"
      then have "Suc y \<le> h" by simp
      then have "Suc y * w \<le> h * w" by (rule mult_le_mono1)
      then have "w \<le> h * w - y * w" by simp
      then show "take w (drop (y * w) (take (h * w) src)) = take w (drop (y * w) src)"
        by (simp add: drop_take min_absorb1)
    qed
    then have "map (\<lambda>y. take w (drop (y * w) (take (h * w) src))) [0..<h] =
        map (\<lambda>y. take w (drop (y * w) src)) [0..<h]"
      by simp
    ultimately show ?thesis by simp
  qed
  moreover have "take w (drop (h * w) src) = drop (h * w) src"
    using Suc.prems by simp
  ultimately show ?case by simp
qed


lemma row_length:
  assumes "y < h" "h * pitch \<le> length src" "n \<le> pitch"
  shows "length (row_of src pitch n y) = n"
proof -
  from assms(1) have "Suc y * pitch \<le> h * pitch" by (intro mult_le_mono1) simp
  with assms(2) have "y * pitch + pitch \<le> length src" by simp
  with assms(3) show ?thesis by (simp add: row_of_def)
qed

lemma flipped_upt: "map (\<lambda>y. f (h - 1 - y)) [0..<h] = rev (map f [0..<h])"
  by (rule nth_equalityI) (simp_all add: rev_nth)

lemma rows_of_concat:
  assumes "\<forall>r\<in>set rs. length r = w"
  shows "map (row_of (concat rs) w w) [0..<length rs] = rs"
  using assms by (intro nth_equalityI) (simp_all add: row_of_def row_concat)

lemma copy_rows_plain:
  "length src = h * w \<Longrightarrow> copy_rows src w h False = src"
  by (simp add: copy_rows_def row_of_def concat_rows)

lemma copy_rows_flip:
  "copy_rows src w h True = concat (rev (map (row_of src w w) [0..<h]))"
  unfolding copy_rows_def by (simp only: if_True flipped_upt)

lemma copy_rows_length:
  assumes "length src = h * w"
  shows "length (copy_rows src w h b) = h * w"
proof -
  have "\<forall>y\<in>set [0..<h]. length (row_of src w w (if b then h - 1 - y else y)) = w"
    using assms by (auto intro!: row_length [where h = h])
  then have "map (\<lambda>y. length (row_of src w w (if b then h - 1 - y else y))) [0..<h]
      = map (\<lambda>y. w) [0..<h]"
    by simp
  then show ?thesis
    by (simp add: copy_rows_def length_concat comp_def sum_list_triv del: map_eq_conv)
qed

lemma copy_rows_flip_flip:
  assumes "length src = h * w"
  shows "copy_rows (copy_rows src w h True) w h True = src"
proof -
  let ?rows = "map (row_of src w w) [0..<h]"
  have len: "\<forall>r\<in>set (rev ?rows). length r = w"
    using assms by (auto intro!: row_length [where h = h])
  have "map (row_of (concat (rev ?rows)) w w) [0..<h] = rev ?rows"
    using rows_of_concat [OF len] by simp
  then have "copy_rows (concat (rev ?rows)) w h True = concat ?rows"
    by (simp add: copy_rows_flip)
  also have "concat ?rows = src"
    using assms concat_rows [of src h w] by (simp add: row_of_def [abs_def])
  finally show ?thesis by (simp add: copy_rows_flip)
qed

lemma copy_rows_nth:
  assumes "length src = h * w" "y < h" "x < w"
  shows "copy_rows src w h b ! (y * w + x) = src ! ((if b then h - 1 - y else y) * w + x)"
proof -
  let ?f = "\<lambda>y. row_of src w w (if b then h - 1 - y else y)"
  let ?rs = "map ?f [0..<h]"
  have len: "\<forall>r\<in>set ?rs. length r = w"
    using assms(1) by (auto intro!: row_length [where h = h])
  have "take w (drop (y * w) (concat ?rs)) = ?rs ! y"
    using len assms(2) by (intro row_concat) simp_all
  then have "take w (drop (y * w) (copy_rows src w h b)) = ?f y"
    using assms(2) by (simp add: copy_rows_def)
  then have "take w (drop (y * w) (copy_rows src w h b)) ! x = ?f y ! x"
    by simp
  moreover have "y * w + x < length (copy_rows src w h b)"
  proof -
    from assms(2) have "Suc y * w \<le> h * w" by (intro mult_le_mono1) simp
    with assms(3) show ?thesis by (simp add: copy_rows_length [OF assms(1)])
  qed
  moreover have "(if b then h - 1 - y else y) * w + x < length src"
  proof -
    from assms(2) have "Suc (if b then h - 1 - y else y) * w \<le> h * w"
      by (intro mult_le_mono1) auto
    with assms(3) show ?thesis by (simp add: assms(1))
  qed
  ultimately show ?thesis
    using assms(3) by (simp add: row_of_def)
qed


subsection \<open>Copying a texture\<close>

lemma CopyTexture_True:
  assumes "CopyTexture gl s d w h flip = (True, gl')"
  shows "\<exists>src dst. gl s = Some src \<and> gl d = Some dst \<and>
           tex_width src = w \<and> tex_height src = h \<and> tex_width dst = w \<and> tex_height dst = h \<and>
           gl' = gl(d \<mapsto> dst\<lparr>tex_pixels := copy_rows (tex_pixels src) w h flip\<rparr>)"
  using assms by (auto simp: CopyTexture_def split: option.splits if_splits)

text \<open>
  C1. Inverting twice is the identity. When a texture is copied with \<open>bInvert\<close> to a second
  texture, and the second with \<open>bInvert\<close> to a third (which may be the first again), the third
  holds the pixels of the first, in their original row order.
\<close>

theorem CopyTexture_double_invert:
  assumes src: "gl a = Some ta" and valid: "valid_texture ta"
    and first: "CopyTexture gl a b w h True = (True, gl1)"
    and second: "CopyTexture gl1 b c w h True = (True, gl2)"
  shows "\<exists>tc. gl2 c = Some tc \<and> tex_pixels tc = tex_pixels ta"
proof -
  from CopyTexture_True [OF first] src obtain tb where
    dims: "tex_width ta = w" "tex_height ta = h" and
    gl1: "gl1 = gl(b \<mapsto> tb\<lparr>tex_pixels := copy_rows (tex_pixels ta) w h True\<rparr>)"
    by auto
  from CopyTexture_True [OF second] gl1 obtain tc0 where
    gl2: "gl2 = gl1(c \<mapsto> tc0\<lparr>tex_pixels :=
      copy_rows (copy_rows (tex_pixels ta) w h True) w h True\<rparr>)"
    by auto
  from valid dims have "length (tex_pixels ta) = h * w"
    by (simp add: valid_texture_def)
  then have "copy_rows (copy_rows (tex_pixels ta) w h True) w h True = tex_pixels ta"
    by (rule copy_rows_flip_flip)
  with gl2 show ?thesis by simp
qed

theorem CopyTexture_double_invert_witness:
  "\<exists>tc. snd (CopyTexture (snd (CopyTexture gl0 1 2 2 3 True)) 2 1 2 3 True) 1 = Some tc \<and>
     tex_pixels tc = [1, 2, 3, 4, 5, 6] \<and>
     tex_pixels (the (snd (CopyTexture gl0 1 2 2 3 True) 2)) = [5, 6, 3, 4, 1, 2]"
proof -
  have a: "gl0 1 = Some tex_a" by (simp add: gl0_def)
  have v: "valid_texture tex_a" by (simp add: valid_texture_def tex_a_def)
  have f: "CopyTexture gl0 1 2 2 3 True = (True, snd (CopyTexture gl0 1 2 2 3 True))"
    by (simp add: CopyTexture_def gl0_def tex_a_def tex_b_def)
  have s: "CopyTexture (snd (CopyTexture gl0 1 2 2 3 True)) 2 1 2 3 True =
      (True, snd (CopyTexture (snd (CopyTexture gl0 1 2 2 3 True)) 2 1 2 3 True))"
    by (simp add: CopyTexture_def gl0_def tex_a_def tex_b_def)
  have once: "tex_pixels (the (snd (CopyTexture gl0 1 2 2 3 True) 2)) = [5, 6, 3, 4, 1, 2]"
    by (simp add: CopyTexture_def gl0_def tex_a_def tex_b_def copy_rows_def row_of_def
        upt_conv_Cons)
  from CopyTexture_double_invert [OF a v f s] once show ?thesis
    by (simp add: tex_a_def)
qed

text \<open>
  C2. Source and destination of a copy have the same size, and nothing is scaled. For a source
  and a destination texture that exist, \<open>CopyTexture\<close> succeeds exactly when both have the
  width and the height of the call; otherwise it leaves every texture as it was. When it
  succeeds the destination keeps its size, which is the size of the source, and every pixel
  \<open>(x, y)\<close> of the destination is the pixel \<open>(x, y)\<close> of the source (\<open>(x, height - 1 - y)\<close> with
  \<open>bInvert\<close>): without \<open>bInvert\<close> the destination holds the pixels of the source unchanged.
\<close>

theorem CopyTexture_same_size:
  assumes src: "gl s = Some src" and dst: "gl d = Some dst" and valid: "valid_texture src"
  shows "(fst (CopyTexture gl s d w h flip) \<longleftrightarrow>
            tex_width src = w \<and> tex_height src = h \<and> tex_width dst = w \<and> tex_height dst = h) \<and>
         (\<not> fst (CopyTexture gl s d w h flip) \<longrightarrow> snd (CopyTexture gl s d w h flip) = gl) \<and>
         (fst (CopyTexture gl s d w h flip) \<longrightarrow>
            (\<exists>dst'. snd (CopyTexture gl s d w h flip) = gl(d \<mapsto> dst') \<and>
               tex_width dst' = tex_width src \<and> tex_height dst' = tex_height src \<and>
               tex_width dst' = tex_width dst \<and> tex_height dst' = tex_height dst \<and>
               valid_texture dst' \<and>
               (\<forall>y<h. \<forall>x<w. tex_pixels dst' ! (y * w + x) =
                  tex_pixels src ! ((if flip then h - 1 - y else y) * w + x)) \<and>
               (\<not> flip \<longrightarrow> tex_pixels dst' = tex_pixels src)))"
proof (cases "tex_width src = w \<and> tex_height src = h \<and> tex_width dst = w \<and> tex_height dst = h")
  case False
  with src dst show ?thesis by (auto simp: CopyTexture_def)
next
  case True
  let ?dst' = "dst\<lparr>tex_pixels := copy_rows (tex_pixels src) w h flip\<rparr>"
  from True valid have len: "length (tex_pixels src) = h * w"
    by (simp add: valid_texture_def)
  have run: "CopyTexture gl s d w h flip = (True, gl(d \<mapsto> ?dst'))"
    using src dst True by (simp add: CopyTexture_def)
  have "valid_texture ?dst'"
    using True by (simp add: valid_texture_def copy_rows_length [OF len])
  moreover have "\<forall>y<h. \<forall>x<w. tex_pixels ?dst' ! (y * w + x) =
      tex_pixels src ! ((if flip then h - 1 - y else y) * w + x)"
    using copy_rows_nth [OF len] by simp
  moreover have "\<not> flip \<longrightarrow> tex_pixels ?dst' = tex_pixels src"
    using copy_rows_plain [OF len] by simp
  ultimately show ?thesis
    using True run by (intro conjI impI exI [of _ ?dst']) simp_all
qed


theorem CopyTexture_same_size_witness:
  "fst (CopyTexture gl0 1 2 2 3 False) \<and>
   (\<exists>dst'. snd (CopyTexture gl0 1 2 2 3 False) = gl0(2 \<mapsto> dst') \<and>
      tex_width dst' = 2 \<and> tex_height dst' = 3 \<and> tex_pixels dst' = [1, 2, 3, 4, 5, 6]) \<and>
   \<not> fst (CopyTexture gl0 1 2 2 2 False) \<and> snd (CopyTexture gl0 1 2 2 2 False) = gl0"
proof -
  have s: "gl0 1 = Some tex_a" and d: "gl0 2 = Some tex_b"
    by (simp_all add: gl0_def)
  have v: "valid_texture tex_a"
    by (simp add: valid_texture_def tex_a_def)
  from CopyTexture_same_size [OF s d v, of 2 3 False]
  have "fst (CopyTexture gl0 1 2 2 3 False) \<and>
      (\<exists>dst'. snd (CopyTexture gl0 1 2 2 3 False) = gl0(2 \<mapsto> dst') \<and>
        tex_width dst' = 2 \<and> tex_height dst' = 3 \<and> tex_pixels dst' = [1, 2, 3, 4, 5, 6])"
    by (auto simp: tex_a_def tex_b_def)
  moreover from CopyTexture_same_size [OF s d v, of 2 2 False]
  have "\<not> fst (CopyTexture gl0 1 2 2 2 False) \<and> snd (CopyTexture gl0 1 2 2 2 False) = gl0"
    by (simp add: tex_a_def tex_b_def)
  ultimately show ?thesis by simp
qed

subsection \<open>Stride correction\<close>

lemma row_of_take:
  assumes "y < h" "n \<le> pitch"
  shows "row_of (take (h * pitch) buf) pitch n y = row_of buf pitch n y"
proof -
  from assms(1) have "Suc y * pitch \<le> h * pitch" by (intro mult_le_mono1) simp
  with assms(2) have "n \<le> h * pitch - y * pitch" by simp
  then show ?thesis by (simp add: row_of_def drop_take min_absorb1)
qed

lemma RemovePadding_length:
  assumes "height * stride \<le> length source" "width * bytesPerPixel f \<le> stride"
  shows "length (RemovePadding source width height stride f) = height * (width * bytesPerPixel f)"
proof -
  have "map (\<lambda>y. length (row_of source stride (width * bytesPerPixel f) y)) [0..<height]
      = map (\<lambda>y. width * bytesPerPixel f) [0..<height]"
    using assms by (simp add: row_length [where h = height])
  then show ?thesis
    by (simp add: RemovePadding_def length_concat comp_def sum_list_triv del: map_eq_conv)
qed

lemma RemovePadding_row:
  assumes "height * stride \<le> length source" "width * bytesPerPixel f \<le> stride" "y < height"
  shows "row_of (RemovePadding source width height stride f)
           (width * bytesPerPixel f) (width * bytesPerPixel f) y =
         row_of source stride (width * bytesPerPixel f) y"
proof -
  let ?n = "width * bytesPerPixel f"
  let ?rs = "map (row_of source stride ?n) [0..<height]"
  have "\<forall>r\<in>set ?rs. length r = ?n"
    using assms(1,2) by (auto intro!: row_length [where h = height])
  then have "take ?n (drop (y * ?n) (concat ?rs)) = ?rs ! y"
    using assms(3) by (intro row_concat) simp_all
  then show ?thesis
    using assms(3) by (simp add: RemovePadding_def row_of_def)
qed

text \<open>
  C3. Row stride correction. For a source of \<open>height\<close> rows, \<open>pitch\<close> bytes apart, with
  \<open>width * bytesPerPixel \<le> pitch\<close>, the bytes copied are \<open>height\<close> rows packed at exactly
  \<open>width * bytesPerPixel\<close>, row \<open>y\<close> being the first \<open>width * bytesPerPixel\<close> bytes of source row
  \<open>y\<close>. When the pitch exceeds \<open>width * bytesPerPixel\<close> they are what \<open>RemovePadding\<close> produces;
  when the pitch equals \<open>width * bytesPerPixel\<close> they are the source bytes unchanged.
\<close>

theorem copy_pixels_packed:
  assumes fits: "height * pitch \<le> length source"
    and pitch: "width * bytesPerPixel f \<le> pitch"
  shows "length (copy_pixels source width height pitch f) = height * (width * bytesPerPixel f) \<and>
         (\<forall>y<height. row_of (copy_pixels source width height pitch f)
                        (width * bytesPerPixel f) (width * bytesPerPixel f) y =
                      row_of source pitch (width * bytesPerPixel f) y) \<and>
         (width * bytesPerPixel f < pitch \<longrightarrow>
            copy_pixels source width height pitch f = RemovePadding source width height pitch f) \<and>
         (pitch = width * bytesPerPixel f \<longrightarrow>
            copy_pixels source width height pitch f = take (height * pitch) source) \<and>
         (pitch = width * bytesPerPixel f \<and> length source = height * pitch \<longrightarrow>
            copy_pixels source width height pitch f = source)"
proof (cases "width * bytesPerPixel f < pitch")
  case True
  then show ?thesis
    using RemovePadding_length [OF fits pitch] RemovePadding_row [OF fits pitch]
    by (simp add: copy_pixels_def)
next
  case False
  with pitch have eq: "pitch = width * bytesPerPixel f" by simp
  have "\<forall>y<height. row_of (take (height * pitch) source) pitch pitch y = row_of source pitch pitch y"
    by (simp add: row_of_take)
  then show ?thesis
    using fits eq by (simp add: copy_pixels_def)
qed

theorem copy_pixels_packed_witness:
  "copy_pixels [1, 2, 3, 9, 4, 5, 6, 9] 1 2 4 GL_RGB = [1, 2, 3, 4, 5, 6] \<and>
   copy_pixels [1, 2, 3, 9, 4, 5, 6, 9] 1 2 4 GL_RGBA = [1, 2, 3, 9, 4, 5, 6, 9]"
proof -
  have "copy_pixels [1, 2, 3, 9, 4, 5, 6, 9] 1 2 4 GL_RGB =
      RemovePadding [1, 2, 3, 9, 4, 5, 6, 9] 1 2 4 GL_RGB"
    using copy_pixels_packed [of 2 4 "[1, 2, 3, 9, 4, 5, 6, 9]" 1 GL_RGB] by simp
  moreover have "RemovePadding [1, 2, 3, 9, 4, 5, 6, 9] 1 2 4 GL_RGB = [1, 2, 3, 4, 5, 6]"
    by (simp add: RemovePadding_def row_of_def upt_conv_Cons)
  moreover have "copy_pixels [1, 2, 3, 9, 4, 5, 6, 9] 1 2 4 GL_RGBA = [1, 2, 3, 9, 4, 5, 6, 9]"
    using copy_pixels_packed [of 2 4 "[1, 2, 3, 9, 4, 5, 6, 9]" 1 GL_RGBA] by simp
  ultimately show ?thesis by simp
qed

end
